theory Spec2Isabelle
  imports Main "HOL-Library.Word"
begin

section \<open>JavaScript strings\<close>

text \<open>
  A JavaScript string is a sequence of 16-bit code units. String literals of the source
  are ASCII, so \<open>lit\<close> maps each character of a literal to its code unit.
\<close>

type_synonym js_string = "16 word list"

definition lit :: "string \<Rightarrow> js_string" where
  "lit s = map of_char s"

text \<open>
  \<open>String.prototype.trim\<close> removes the code units of the ECMAScript productions
  WhiteSpace and LineTerminator from both ends: TAB, LF, VT, FF, CR, SPACE, NBSP, the
  other space separators of Unicode (all in the basic plane), LS, PS and the byte order
  mark.
\<close>

definition isWhiteSpace :: "16 word \<Rightarrow> bool" where
  "isWhiteSpace c = (c \<in> set [0x0009, 0x000A, 0x000B, 0x000C, 0x000D, 0x0020, 0x00A0, 0x1680,
     0x2000, 0x2001, 0x2002, 0x2003, 0x2004, 0x2005, 0x2006, 0x2007, 0x2008, 0x2009, 0x200A,
     0x2028, 0x2029, 0x202F, 0x205F, 0x3000, 0xFEFF])"

definition trim :: "js_string \<Rightarrow> js_string" where
  "trim s = rev (dropWhile isWhiteSpace (rev (dropWhile isWhiteSpace s)))"

section \<open>JavaScript numbers\<close>

text \<open>
  A JavaScript number is an IEEE 754 double. Vote counts are whole numbers, so a count is
  represented by the integer it denotes. Every integer up to \<open>2 ^ 53\<close> in magnitude is a
  double; from there on the doubles are \<open>spacing\<close> apart: 2 up to \<open>2 ^ 54\<close>, then 4,
  and so on.
\<close>

type_synonym js_number = int

function spacing :: "int \<Rightarrow> int" where
  "spacing m = (if m < 2 ^ 53 then 1 else 2 * spacing (m div 2))"
  by pat_completeness auto
termination
  by (relation "measure nat") auto

declare spacing.simps [simp del]

text \<open>
  The double nearest to an integer, a tie going to the double with the even significand
  (the rounding mode of JavaScript). An integer is a double when rounding leaves it as it
  is.
\<close>

definition roundToDouble :: "int \<Rightarrow> js_number" where
  "roundToDouble n =
     (let m = \<bar>n\<bar>; q = spacing m; d = m div q; r = m mod q;
          k = (if 2 * r < q \<or> (2 * r = q \<and> even d) then d else d + 1)
      in sgn n * (k * q))"

definition isDouble :: "int \<Rightarrow> bool" where
  "isDouble n = (roundToDouble n = n)"

text \<open>
  \<open>a + b\<close> and \<open>a - b\<close> on numbers: the exact result, rounded to a double. (An exact
  result of magnitude \<open>2 ^ 1024\<close> or more would be an infinity; adding or subtracting 1
  never reaches it from a double.)
\<close>

definition jsAdd :: "js_number \<Rightarrow> js_number \<Rightarrow> js_number" where
  "jsAdd a b = roundToDouble (a + b)"

definition jsSub :: "js_number \<Rightarrow> js_number \<Rightarrow> js_number" where
  "jsSub a b = roundToDouble (a - b)"

section \<open>The opinion form: \<open>isNotEmpty\<close> and \<open>signupAction\<close>\<close>

text \<open>
  \<open>FormData\<close> is an ordered list of entries, each a name with a string or a file;
  \<open>formData.get(name)\<close> is the value of the first entry of that name, or \<open>null\<close>
  (here \<open>None\<close>) when there is none.
\<close>

datatype form_entry = EntryString js_string | EntryFile

type_synonym form_data = "(js_string \<times> form_entry) list"

definition formData_get :: "form_data \<Rightarrow> js_string \<Rightarrow> form_entry option" where
  "formData_get formData name = map_of formData name"

datatype js_error = TypeError

text \<open>
  \<open>value.trim() !== ""\<close>: on \<open>null\<close> the property access throws a TypeError, on a
  file \<open>value.trim\<close> is undefined and calling it throws a TypeError.
\<close>

fun isNotEmpty :: "form_entry option \<Rightarrow> js_error + bool" where
  "isNotEmpty (Some (EntryString s)) = Inr (trim s \<noteq> [])"
| "isNotEmpty (Some EntryFile) = Inl TypeError"
| "isNotEmpty None = Inl TypeError"

record entered_values =
  userName :: "form_entry option"
  title :: "form_entry option"
  body :: "form_entry option"

text \<open>
  The form state: \<open>errors\<close> is \<open>null\<close> or an array of messages; \<open>enteredValues\<close>
  is absent (\<open>None\<close>) or the echoed fields.
\<close>

record form_state =
  errors :: "js_string list option"
  enteredValues :: "entered_values option"

definition signupAction :: "form_state \<Rightarrow> form_data \<Rightarrow> js_error + form_state" where
  "signupAction prevFormState formData =
     (let userName' = formData_get formData (lit ''userName'');
          title' = formData_get formData (lit ''title'');
          body' = formData_get formData (lit ''body'');
          errors0 = []
      in case isNotEmpty userName' of
           Inl e \<Rightarrow> Inl e
         | Inr r1 \<Rightarrow>
             let errors1 = (if \<not> r1 then errors0 @ [lit ''Please Enter a valid username'']
                            else errors0)
             in case isNotEmpty title' of
                  Inl e \<Rightarrow> Inl e
                | Inr r2 \<Rightarrow>
                    let errors2 = (if \<not> r2 then errors1 @ [lit ''Please Enter a valid title'']
                                   else errors1)
                    in case isNotEmpty body' of
                         Inl e \<Rightarrow> Inl e
                       | Inr r3 \<Rightarrow>
                           let errors3 = (if \<not> r3
                                          then errors2 @ [lit ''Please Enter a valid body'']
                                          else errors2)
                           in if length errors3 \<noteq> 0
                              then Inr \<lparr>errors = Some errors3,
                                        enteredValues = Some \<lparr>userName = userName',
                                          title = title', body = body'\<rparr>\<rparr>
                              else Inr \<lparr>errors = None, enteredValues = None\<rparr>)"

text \<open>The initial state that \<open>NewOpinion\<close> gives to \<open>useActionState\<close>.\<close>

definition initialFormState :: form_state where
  "initialFormState = \<lparr>errors = None, enteredValues = None\<rparr>"

text \<open>
  The list the specification describes: one message for each field that trims to the
  empty string, in the order userName, title, body. It is written from the
  specification's words and compared with what \<open>signupAction\<close> returns.
\<close>

definition validationMessages :: "js_string \<Rightarrow> js_string \<Rightarrow> js_string \<Rightarrow> js_string list" where
  "validationMessages u t b =
     (if trim u = [] then [lit ''Please Enter a valid username''] else []) @
     (if trim t = [] then [lit ''Please Enter a valid title''] else []) @
     (if trim b = [] then [lit ''Please Enter a valid body''] else [])"

section \<open>The input hook \<open>useInput\<close>\<close>

text \<open>
  The two \<open>useState\<close> cells of the hook, the two handlers, and the object a render
  returns (without the handlers themselves). \<open>value\<close> is a keyword, hence \<open>value'\<close>.
\<close>

record input_state =
  userInput :: js_string
  didEdit :: bool

record input_result =
  value' :: js_string
  hasError :: bool

definition initialInputState :: "js_string \<Rightarrow> input_state" where
  "initialInputState defaultInputValue = \<lparr>userInput = defaultInputValue, didEdit = False\<rparr>"

definition handleUserInput :: "js_string \<Rightarrow> input_state \<Rightarrow> input_state" where
  "handleUserInput targetValue s = s\<lparr>userInput := targetValue, didEdit := False\<rparr>"

definition handleInputBlur :: "input_state \<Rightarrow> input_state" where
  "handleInputBlur s = s\<lparr>didEdit := True\<rparr>"

definition useInput :: "js_string \<Rightarrow> (js_string \<Rightarrow> bool) \<Rightarrow> input_state \<Rightarrow> input_result" where
  "useInput defaultInputValue validationFn s =
     (let valueIsValid = validationFn defaultInputValue
      in \<lparr>value' = userInput s, hasError = (didEdit s \<and> \<not> valueIsValid)\<rparr>)"

text \<open>The events of the field: a change event carrying \<open>event.target.value\<close>, or a
  blur. Each runs its handler on the state of the hook.\<close>

datatype input_event = Input js_string | Blur

fun handleEvent :: "input_state \<Rightarrow> input_event \<Rightarrow> input_state" where
  "handleEvent s (Input v) = handleUserInput v s"
| "handleEvent s Blur = handleInputBlur s"

definition afterEvents :: "js_string \<Rightarrow> input_event list \<Rightarrow> input_state" where
  "afterEvents defaultInputValue evs = foldl handleEvent (initialInputState defaultInputValue) evs"

text \<open>
  To speak about event sequences: \<open>isInput\<close> tells a keystroke from a blur, and
  \<open>retype g\<close> replaces the typed value \<open>v\<close> of a keystroke by \<open>g v\<close>.
\<close>

fun isInput :: "input_event \<Rightarrow> bool" where
  "isInput (Input v) = True"
| "isInput Blur = False"

fun retype :: "(js_string \<Rightarrow> js_string) \<Rightarrow> input_event \<Rightarrow> input_event" where
  "retype g (Input v) = Input (g v)"
| "retype g Blur = Blur"

section \<open>The opinion store\<close>

text \<open>
  An opinion as the store holds it. The fields \<open>id\<close>, \<open>userName\<close>, \<open>title\<close>,
  \<open>body\<close>, \<open>votes\<close> of the source carry the prefix \<open>opinion_\<close> here, since
  \<open>id\<close> is the identity function of HOL and the other names are fields of the form's
  record. The count \<open>votes\<close> is a JavaScript number.
\<close>

record 'i opinion =
  opinion_id :: 'i
  opinion_userName :: js_string
  opinion_title :: js_string
  opinion_body :: js_string
  opinion_votes :: js_number

text \<open>
  \<open>upvoteOpinion(id)\<close> hands \<open>setOpinions\<close> an updater of the previous state. The
  state cell starts \<open>undefined\<close> (\<open>useState()\<close> without an argument), here
  \<open>None\<close>, on which \<open>prevOpinions.map\<close> throws.
\<close>

definition upvoteOpinion :: "'i \<Rightarrow> 'i opinion list option \<Rightarrow> js_error + 'i opinion list option" where
  "upvoteOpinion id' prevOpinions =
     (case prevOpinions of
        None \<Rightarrow> Inl TypeError
      | Some ops \<Rightarrow>
          Inr (Some (map (\<lambda>opinion.
                 if opinion_id opinion = id'
                 then opinion\<lparr>opinion_votes := jsAdd (opinion_votes opinion) 1\<rparr>
                 else opinion) ops)))"

text \<open>
  Modelled from the spec: \<open>downvoteOpinion\<close> is among the "other functions" that the
  provider's listing leaves out. The specification has the store persist the same delta
  as the optimistic one, so it mirrors \<open>upvoteOpinion\<close> with \<open>- 1\<close>.
\<close>

definition downvoteOpinion :: "'i \<Rightarrow> 'i opinion list option \<Rightarrow> js_error + 'i opinion list option" where
  "downvoteOpinion id' prevOpinions =
     (case prevOpinions of
        None \<Rightarrow> Inl TypeError
      | Some ops \<Rightarrow>
          Inr (Some (map (\<lambda>opinion.
                 if opinion_id opinion = id'
                 then opinion\<lparr>opinion_votes := jsSub (opinion_votes opinion) 1\<rparr>
                 else opinion) ops)))"

section \<open>The optimistic vote controller\<close>

text \<open>
  The reducer given to \<open>useOptimistic\<close>:
  \<open>(prevVotes, mode) => (mode === "up" ? prevVotes + 1 : prevVotes - 1)\<close>.
  Every mode other than \<open>"up"\<close> takes the second branch.
\<close>

definition votesReducer :: "js_number \<Rightarrow> js_string \<Rightarrow> js_number" where
  "votesReducer prevVotes mode =
     (if mode = lit ''up'' then jsAdd prevVotes 1 else jsSub prevVotes 1)"

text \<open>
  The bodies of the two asynchronous actions, as the sequence of their effects: the
  optimistic update first, then the awaited call of the store.
\<close>

datatype 'i commit = UpvoteOpinion 'i | DownvoteOpinion 'i

datatype 'i effect = SetVotesOptimistically js_string | Await "'i commit"

definition upvoteAction :: "'i \<Rightarrow> 'i effect list" where
  "upvoteAction id' = [SetVotesOptimistically (lit ''up''), Await (UpvoteOpinion id')]"

definition downvoteAction :: "'i \<Rightarrow> 'i effect list" where
  "downvoteAction id' = [SetVotesOptimistically (lit ''down''), Await (DownvoteOpinion id')]"

text \<open>
  One opinion on screen: the store, the \<open>id\<close> prop, the optimistic updates queued by
  the running action, the two pending flags of \<open>useActionState\<close>, and the suspended
  action (which button started it, the call it awaits, the rest of its body).
\<close>

datatype vote_button = UpvoteButton | DownvoteButton

record 'i opinion_view =
  opinions :: "'i opinion list option"
  itemId :: 'i
  optimisticUpdates :: "js_string list"
  upvotePending :: bool
  downvotePending :: bool
  awaiting :: "(vote_button \<times> 'i commit \<times> 'i effect list) option"

definition initialView :: "'i opinion list option \<Rightarrow> 'i \<Rightarrow> 'i opinion_view" where
  "initialView store id' =
     \<lparr>opinions = store, itemId = id', optimisticUpdates = [], upvotePending = False,
      downvotePending = False, awaiting = None\<rparr>"

text \<open>The \<open>votes\<close> prop: the count of the opinion with this id in the store.\<close>

definition votes :: "'i opinion_view \<Rightarrow> js_number option" where
  "votes s =
     (case opinions s of
        None \<Rightarrow> None
      | Some ops \<Rightarrow> map_option opinion_votes (find (\<lambda>opinion. opinion_id opinion = itemId s) ops))"

text \<open>
  Modelled from the spec: the runtime of React's \<open>useOptimistic\<close> and
  \<open>useActionState\<close> is not part of the repository. As the specification and the
  repository's notes describe it, the displayed count is the \<open>votes\<close> prop with the
  reducer applied to each optimistic update of the running action; an action's pending
  flag is set from its start until it settles; when it settles its optimistic updates are
  discarded. \<open>optimisticVotes\<close> is the first value that \<open>useOptimistic\<close> returns.
\<close>

definition optimisticVotes :: "'i opinion_view \<Rightarrow> js_number option" where
  "optimisticVotes s = map_option (\<lambda>v. foldl votesReducer v (optimisticUpdates s)) (votes s)"

text \<open>Modelled from the spec: the third value of each \<open>useActionState\<close>, the pending
  flag of that button's action.\<close>

fun setPending :: "vote_button \<Rightarrow> bool \<Rightarrow> 'i opinion_view \<Rightarrow> 'i opinion_view" where
  "setPending UpvoteButton p s = s\<lparr>upvotePending := p\<rparr>"
| "setPending DownvoteButton p s = s\<lparr>downvotePending := p\<rparr>"

text \<open>Modelled from the spec: an action that ends, by finishing its body or by an
  exception, clears its pending flag, and React drops its optimistic updates.\<close>

definition finishAction :: "vote_button \<Rightarrow> 'i opinion_view \<Rightarrow> 'i opinion_view" where
  "finishAction btn s = setPending btn False (s\<lparr>optimisticUpdates := [], awaiting := None\<rparr>)"

text \<open>Modelled from the spec: an action body runs effect by effect until it finishes or
  reaches an \<open>await\<close>, where it is suspended with the rest of its body.
  \<open>setVotesOptimistically(mode)\<close> queues the mode for the reducer.\<close>

fun runAction :: "vote_button \<Rightarrow> 'i effect list \<Rightarrow> 'i opinion_view \<Rightarrow> 'i opinion_view" where
  "runAction btn [] s = finishAction btn s"
| "runAction btn (SetVotesOptimistically mode # rest) s =
     runAction btn rest (s\<lparr>optimisticUpdates := optimisticUpdates s @ [mode]\<rparr>)"
| "runAction btn (Await c # rest) s = s\<lparr>awaiting := Some (btn, c, rest)\<rparr>"

text \<open>
  The \<open>disabled\<close> prop of the upvote button: \<open>upvotePending || downvotePending\<close>.
  Modelled from the spec: the downvote button is not in the listing; the specification
  disables both buttons while any request for the item is pending, so one expression
  serves both.
\<close>

definition disabled :: "'i opinion_view \<Rightarrow> bool" where
  "disabled s = (upvotePending s \<or> downvotePending s)"

text \<open>Each button submits the form to its own action: the \<open>formAction\<close> prop of the
  upvote button is the action that \<open>useActionState(upvoteAction)\<close> returns.\<close>

fun formAction :: "vote_button \<Rightarrow> 'i \<Rightarrow> 'i effect list" where
  "formAction UpvoteButton id' = upvoteAction id'"
| "formAction DownvoteButton id' = downvoteAction id'"

text \<open>Modelled from the spec: a click on a disabled button submits nothing; otherwise the
  button's action starts, its pending flag is set, and it runs up to its first
  \<open>await\<close>.\<close>

definition click :: "vote_button \<Rightarrow> 'i opinion_view \<Rightarrow> 'i opinion_view" where
  "click btn s =
     (if disabled s then s
      else runAction btn (formAction btn (itemId s)) (setPending btn True s))"

text \<open>
  Modelled from the spec: how a commit fails is not in the repository (the store
  operation listed cannot fail). Following the specification, a failed commit mutates
  nothing and ends the action; a successful one applies the store operation and resumes
  the action after its \<open>await\<close>.
\<close>

datatype outcome = Success | Failure

fun applyCommit :: "'i commit \<Rightarrow> 'i opinion list option \<Rightarrow> js_error + 'i opinion list option" where
  "applyCommit (UpvoteOpinion id') store = upvoteOpinion id' store"
| "applyCommit (DownvoteOpinion id') store = downvoteOpinion id' store"

definition settle :: "outcome \<Rightarrow> 'i opinion_view \<Rightarrow> 'i opinion_view" where
  "settle out s =
     (case awaiting s of
        None \<Rightarrow> s
      | Some (btn, c, rest) \<Rightarrow>
          (case out of
             Failure \<Rightarrow> finishAction btn s
           | Success \<Rightarrow>
               (case applyCommit c (opinions s) of
                  Inl e \<Rightarrow> finishAction btn s
                | Inr store' \<Rightarrow> runAction btn rest (s\<lparr>opinions := store', awaiting := None\<rparr>))))"

datatype vote_event = Click vote_button | Settle outcome

fun step :: "'i opinion_view \<Rightarrow> vote_event \<Rightarrow> 'i opinion_view" where
  "step s (Click btn) = click btn s"
| "step s (Settle out) = settle out s"

definition afterVoteEvents :: "'i opinion_view \<Rightarrow> vote_event list \<Rightarrow> 'i opinion_view" where
  "afterVoteEvents s evs = foldl step s evs"

text \<open>The mode string that a button's action gives to the reducer.\<close>

fun modeOf :: "vote_button \<Rightarrow> js_string" where
  "modeOf UpvoteButton = lit ''up''"
| "modeOf DownvoteButton = lit ''down''"

text \<open>No action is running: nothing is pending and no optimistic update is queued.\<close>

definition idle :: "'i opinion_view \<Rightarrow> bool" where
  "idle s = (\<not> upvotePending s \<and> \<not> downvotePending s \<and> optimisticUpdates s = [] \<and> awaiting s = None)"

text \<open>
  A commit is pending: the action of one button is suspended at the \<open>await\<close> that
  ends its body, its single optimistic update is queued, and its pending flag alone is set.
\<close>

definition committing :: "'i opinion_view \<Rightarrow> bool" where
  "committing s =
     (case awaiting s of
        None \<Rightarrow> False
      | Some (btn, c, rest) \<Rightarrow>
          rest = [] \<and> optimisticUpdates s = [modeOf btn] \<and>
          upvotePending s = (btn = UpvoteButton) \<and> downvotePending s = (btn = DownvoteButton))"

section \<open>Form validation: results\<close>

lemma signupAction_strings:
  assumes "formData_get formData (lit ''userName'') = Some (EntryString u)"
    and "formData_get formData (lit ''title'') = Some (EntryString t)"
    and "formData_get formData (lit ''body'') = Some (EntryString b)"
  shows "signupAction prevFormState formData =
     (if validationMessages u t b \<noteq> []
      then Inr \<lparr>errors = Some (validationMessages u t b),
                enteredValues = Some \<lparr>userName = Some (EntryString u),
                  title = Some (EntryString t), body = Some (EntryString b)\<rparr>\<rparr>
      else Inr \<lparr>errors = None, enteredValues = None\<rparr>)"
  using assms by (simp add: signupAction_def validationMessages_def Let_def)

lemma signupAction_throws:
  assumes "(\<nexists>s. formData_get formData (lit ''userName'') = Some (EntryString s)) \<or>
           (\<nexists>s. formData_get formData (lit ''title'') = Some (EntryString s)) \<or>
           (\<nexists>s. formData_get formData (lit ''body'') = Some (EntryString s))"
  shows "signupAction prevFormState formData = Inl TypeError"
proof -
  have e: "\<And>v. (\<nexists>s. v = Some (EntryString s)) \<Longrightarrow> isNotEmpty v = Inl TypeError"
  proof -
    fix v :: "form_entry option"
    assume "\<nexists>s. v = Some (EntryString s)"
    then show "isNotEmpty v = Inl TypeError"
      by (cases v rule: isNotEmpty.cases) simp_all
  qed
  have d: "\<And>v. isNotEmpty v = Inl TypeError \<or> (\<exists>r. isNotEmpty v = Inr r)"
  proof -
    fix v :: "form_entry option"
    show "isNotEmpty v = Inl TypeError \<or> (\<exists>r. isNotEmpty v = Inr r)"
      by (cases v rule: isNotEmpty.cases) simp_all
  qed
  from assms show ?thesis
    using d [of "formData_get formData (lit ''userName'')"]
      d [of "formData_get formData (lit ''title'')"]
      e [of "formData_get formData (lit ''userName'')"]
      e [of "formData_get formData (lit ''title'')"]
      e [of "formData_get formData (lit ''body'')"]
    by (auto simp add: signupAction_def Let_def)
qed

lemma validationMessages_empty_iff:
  "validationMessages u t b = [] \<longleftrightarrow> trim u \<noteq> [] \<and> trim t \<noteq> [] \<and> trim b \<noteq> []"
  by (simp add: validationMessages_def)

subsection \<open>C1: the list of messages\<close>

text \<open>
  C1, as stated, has \<open>signupAction\<close> return a list with one message per empty field for
  every combination. With no field empty the list would be empty, but the function
  returns \<open>errors: null\<close> there: the submission Ann / Good / Nice yields \<open>null\<close>, not
  the empty list.
\<close>

theorem C1_null_counterexample:
  "signupAction initialFormState
     [(lit ''userName'', EntryString (lit ''Ann'')), (lit ''title'', EntryString (lit ''Good'')),
      (lit ''body'', EntryString (lit ''Nice''))]
     = Inr \<lparr>errors = None, enteredValues = None\<rparr>
   \<and> map_sum id errors (signupAction initialFormState
     [(lit ''userName'', EntryString (lit ''Ann'')), (lit ''title'', EntryString (lit ''Good'')),
      (lit ''body'', EntryString (lit ''Nice''))])
     \<noteq> Inr (Some (validationMessages (lit ''Ann'') (lit ''Good'') (lit ''Nice'')))"
  by (simp add: signupAction_def formData_get_def lit_def trim_def isWhiteSpace_def
      initialFormState_def validationMessages_def)

text \<open>
  C1 (amended): when the three fields are submitted as strings and at least one of them
  trims to the empty string, \<open>signupAction\<close> returns as \<open>errors\<close> exactly the list
  with one message per empty field, in the order userName, title, body; when none of them
  is empty it returns \<open>errors: null\<close> and no list.
\<close>

theorem C1_errors_list:
  assumes "formData_get formData (lit ''userName'') = Some (EntryString u)"
    and "formData_get formData (lit ''title'') = Some (EntryString t)"
    and "formData_get formData (lit ''body'') = Some (EntryString b)"
  shows "\<exists>r. signupAction prevFormState formData = Inr r \<and>
           (trim u = [] \<or> trim t = [] \<or> trim b = [] \<longrightarrow>
              errors r = Some (validationMessages u t b)) \<and>
           (trim u \<noteq> [] \<and> trim t \<noteq> [] \<and> trim b \<noteq> [] \<longrightarrow> errors r = None)"
  using signupAction_strings [OF assms, of prevFormState]
  by (auto simp add: validationMessages_empty_iff)

text \<open>The example of the specification: an empty userName with title Good and body Nice
  gives exactly the username message.\<close>

theorem C1_errors_list_witness:
  "formData_get [(lit ''userName'', EntryString []), (lit ''title'', EntryString (lit ''Good'')),
      (lit ''body'', EntryString (lit ''Nice''))] (lit ''userName'') = Some (EntryString [])
   \<and> formData_get [(lit ''userName'', EntryString []), (lit ''title'', EntryString (lit ''Good'')),
      (lit ''body'', EntryString (lit ''Nice''))] (lit ''title'') = Some (EntryString (lit ''Good''))
   \<and> formData_get [(lit ''userName'', EntryString []), (lit ''title'', EntryString (lit ''Good'')),
      (lit ''body'', EntryString (lit ''Nice''))] (lit ''body'') = Some (EntryString (lit ''Nice''))
   \<and> trim [] = []
   \<and> map_sum id errors (signupAction initialFormState
        [(lit ''userName'', EntryString []), (lit ''title'', EntryString (lit ''Good'')),
         (lit ''body'', EntryString (lit ''Nice''))])
      = Inr (Some [lit ''Please Enter a valid username''])"
proof -
  let ?fd = "[(lit ''userName'', EntryString []), (lit ''title'', EntryString (lit ''Good'')),
      (lit ''body'', EntryString (lit ''Nice''))]"
  have h1: "formData_get ?fd (lit ''userName'') = Some (EntryString [])"
    by (simp add: formData_get_def)
  have h2: "formData_get ?fd (lit ''title'') = Some (EntryString (lit ''Good''))"
    by (simp add: formData_get_def lit_def)
  have h3: "formData_get ?fd (lit ''body'') = Some (EntryString (lit ''Nice''))"
    by (simp add: formData_get_def lit_def)
  have v: "validationMessages [] (lit ''Good'') (lit ''Nice'') = [lit ''Please Enter a valid username'']"
    by (simp add: validationMessages_def trim_def lit_def isWhiteSpace_def)
  have t: "trim [] = []" by (simp add: trim_def)
  from C1_errors_list [OF h1 h2 h3, of initialFormState] t v
  have "map_sum id errors (signupAction initialFormState ?fd)
      = Inr (Some [lit ''Please Enter a valid username''])"
    by auto
  with h1 h2 h3 t show ?thesis by blast
qed

subsection \<open>C5: the two shapes of the result\<close>

text \<open>
  C5: for every submission of the three fields, \<open>signupAction\<close> returns one of two
  shapes. If some field trims to the empty string, the result holds a non-empty list of
  errors and \<open>enteredValues\<close> with exactly the three submitted strings; if all three
  are non-empty after trimming, the result is \<open>errors: null\<close> with no echoed values.
\<close>

theorem C5_two_shapes:
  assumes "formData_get formData (lit ''userName'') = Some (EntryString u)"
    and "formData_get formData (lit ''title'') = Some (EntryString t)"
    and "formData_get formData (lit ''body'') = Some (EntryString b)"
  shows "(trim u = [] \<or> trim t = [] \<or> trim b = [] \<longrightarrow>
            (\<exists>es. es \<noteq> [] \<and> signupAction prevFormState formData =
               Inr \<lparr>errors = Some es,
                    enteredValues = Some \<lparr>userName = Some (EntryString u),
                      title = Some (EntryString t), body = Some (EntryString b)\<rparr>\<rparr>)) \<and>
         (trim u \<noteq> [] \<and> trim t \<noteq> [] \<and> trim b \<noteq> [] \<longrightarrow>
            signupAction prevFormState formData = Inr \<lparr>errors = None, enteredValues = None\<rparr>)"
  using signupAction_strings [OF assms, of prevFormState]
  by (auto simp add: validationMessages_empty_iff)

text \<open>Both shapes at concrete submissions: a blank title is echoed with its two spaces,
  and a complete submission returns the state without errors.\<close>

theorem C5_two_shapes_witness:
  "signupAction initialFormState
     [(lit ''userName'', EntryString (lit ''Ann'')), (lit ''title'', EntryString (lit ''  '')),
      (lit ''body'', EntryString (lit ''Nice''))]
     = Inr \<lparr>errors = Some [lit ''Please Enter a valid title''],
            enteredValues = Some \<lparr>userName = Some (EntryString (lit ''Ann'')),
              title = Some (EntryString (lit ''  '')), body = Some (EntryString (lit ''Nice''))\<rparr>\<rparr>
   \<and> signupAction initialFormState
     [(lit ''userName'', EntryString (lit ''Ann'')), (lit ''title'', EntryString (lit ''Good'')),
      (lit ''body'', EntryString (lit ''Nice''))]
     = Inr \<lparr>errors = None, enteredValues = None\<rparr>"
proof -
  let ?bad = "[(lit ''userName'', EntryString (lit ''Ann'')), (lit ''title'', EntryString (lit ''  '')),
      (lit ''body'', EntryString (lit ''Nice''))]"
  let ?good = "[(lit ''userName'', EntryString (lit ''Ann'')), (lit ''title'', EntryString (lit ''Good'')),
      (lit ''body'', EntryString (lit ''Nice''))]"
  have b1: "formData_get ?bad (lit ''userName'') = Some (EntryString (lit ''Ann''))"
    by (simp add: formData_get_def)
  have b2: "formData_get ?bad (lit ''title'') = Some (EntryString (lit ''  ''))"
    by (simp add: formData_get_def lit_def)
  have b3: "formData_get ?bad (lit ''body'') = Some (EntryString (lit ''Nice''))"
    by (simp add: formData_get_def lit_def)
  have g1: "formData_get ?good (lit ''userName'') = Some (EntryString (lit ''Ann''))"
    by (simp add: formData_get_def)
  have g2: "formData_get ?good (lit ''title'') = Some (EntryString (lit ''Good''))"
    by (simp add: formData_get_def lit_def)
  have g3: "formData_get ?good (lit ''body'') = Some (EntryString (lit ''Nice''))"
    by (simp add: formData_get_def lit_def)
  have tb: "trim (lit ''  '') = []"
    by (simp add: trim_def lit_def isWhiteSpace_def)
  have tg: "trim (lit ''Ann'') \<noteq> [] \<and> trim (lit ''Good'') \<noteq> [] \<and> trim (lit ''Nice'') \<noteq> []"
    by (simp add: trim_def lit_def isWhiteSpace_def)
  from C5_two_shapes [OF b1 b2 b3, of initialFormState] tb
  obtain es where es: "signupAction initialFormState ?bad =
       Inr \<lparr>errors = Some es,
            enteredValues = Some \<lparr>userName = Some (EntryString (lit ''Ann'')),
              title = Some (EntryString (lit ''  '')), body = Some (EntryString (lit ''Nice''))\<rparr>\<rparr>"
    by blast
  have "map_sum id errors (signupAction initialFormState ?bad)
          = Inr (Some [lit ''Please Enter a valid title''])"
    by (simp add: signupAction_def formData_get_def lit_def trim_def isWhiteSpace_def)
  with es have "es = [lit ''Please Enter a valid title'']" by simp
  with es have bad: "signupAction initialFormState ?bad =
       Inr \<lparr>errors = Some [lit ''Please Enter a valid title''],
            enteredValues = Some \<lparr>userName = Some (EntryString (lit ''Ann'')),
              title = Some (EntryString (lit ''  '')), body = Some (EntryString (lit ''Nice''))\<rparr>\<rparr>"
    by simp
  from C5_two_shapes [OF g1 g2 g3, of initialFormState] tg
  have good: "signupAction initialFormState ?good = Inr \<lparr>errors = None, enteredValues = None\<rparr>"
    by blast
  from bad good show ?thesis by blast
qed

subsection \<open>C10: missing fields\<close>

text \<open>
  C10: \<open>signupAction\<close> returns a result exactly when the form data holds a string for
  each of the keys userName, title and body. If one of the keys is absent, so that
  \<open>formData.get\<close> is \<open>null\<close>, \<open>isNotEmpty\<close> throws a TypeError on it and so
  does \<open>signupAction\<close>: no validation message is produced.
\<close>

theorem C10_missing_field_throws:
  "((\<exists>r. signupAction prevFormState formData = Inr r) \<longleftrightarrow>
      (\<exists>u t b. formData_get formData (lit ''userName'') = Some (EntryString u) \<and>
               formData_get formData (lit ''title'') = Some (EntryString t) \<and>
               formData_get formData (lit ''body'') = Some (EntryString b))) \<and>
   (formData_get formData (lit ''userName'') = None \<or>
    formData_get formData (lit ''title'') = None \<or>
    formData_get formData (lit ''body'') = None \<longrightarrow>
      isNotEmpty None = Inl TypeError \<and> signupAction prevFormState formData = Inl TypeError)"
proof -
  have a: "(\<exists>r. signupAction prevFormState formData = Inr r) \<longleftrightarrow>
      (\<exists>u t b. formData_get formData (lit ''userName'') = Some (EntryString u) \<and>
               formData_get formData (lit ''title'') = Some (EntryString t) \<and>
               formData_get formData (lit ''body'') = Some (EntryString b))"
  proof
    assume r: "\<exists>r. signupAction prevFormState formData = Inr r"
    show "\<exists>u t b. formData_get formData (lit ''userName'') = Some (EntryString u) \<and>
               formData_get formData (lit ''title'') = Some (EntryString t) \<and>
               formData_get formData (lit ''body'') = Some (EntryString b)"
    proof (rule ccontr)
      assume "\<not> ?thesis"
      then have "(\<nexists>s. formData_get formData (lit ''userName'') = Some (EntryString s)) \<or>
           (\<nexists>s. formData_get formData (lit ''title'') = Some (EntryString s)) \<or>
           (\<nexists>s. formData_get formData (lit ''body'') = Some (EntryString s))"
        by blast
      then have "signupAction prevFormState formData = Inl TypeError"
        by (rule signupAction_throws)
      with r show False by simp
    qed
  next
    assume "\<exists>u t b. formData_get formData (lit ''userName'') = Some (EntryString u) \<and>
               formData_get formData (lit ''title'') = Some (EntryString t) \<and>
               formData_get formData (lit ''body'') = Some (EntryString b)"
    then obtain u t b where
      "formData_get formData (lit ''userName'') = Some (EntryString u)"
      "formData_get formData (lit ''title'') = Some (EntryString t)"
      "formData_get formData (lit ''body'') = Some (EntryString b)"
      by blast
    from signupAction_strings [OF this, of prevFormState]
    show "\<exists>r. signupAction prevFormState formData = Inr r"
      by (cases "validationMessages u t b \<noteq> []") simp_all
  qed
  have b: "formData_get formData (lit ''userName'') = None \<or>
    formData_get formData (lit ''title'') = None \<or>
    formData_get formData (lit ''body'') = None \<longrightarrow>
      isNotEmpty None = Inl TypeError \<and> signupAction prevFormState formData = Inl TypeError"
  proof
    assume "formData_get formData (lit ''userName'') = None \<or>
      formData_get formData (lit ''title'') = None \<or>
      formData_get formData (lit ''body'') = None"
    then have "(\<nexists>s. formData_get formData (lit ''userName'') = Some (EntryString s)) \<or>
           (\<nexists>s. formData_get formData (lit ''title'') = Some (EntryString s)) \<or>
           (\<nexists>s. formData_get formData (lit ''body'') = Some (EntryString s))"
      by auto
    then have "signupAction prevFormState formData = Inl TypeError"
      by (rule signupAction_throws)
    then show "isNotEmpty None = Inl TypeError \<and> signupAction prevFormState formData = Inl TypeError"
      by simp
  qed
  from a b show ?thesis by blast
qed

text \<open>A submission without the body key throws, although userName and title are filled in.\<close>

theorem C10_missing_field_throws_witness:
  "formData_get [(lit ''userName'', EntryString (lit ''Ann'')),
       (lit ''title'', EntryString (lit ''Good''))] (lit ''body'') = None
   \<and> signupAction initialFormState [(lit ''userName'', EntryString (lit ''Ann'')),
       (lit ''title'', EntryString (lit ''Good''))] = Inl TypeError"
proof -
  let ?fd = "[(lit ''userName'', EntryString (lit ''Ann'')), (lit ''title'', EntryString (lit ''Good''))]"
  have h: "formData_get ?fd (lit ''body'') = None"
    by (simp add: formData_get_def lit_def)
  with C10_missing_field_throws [of initialFormState ?fd] show ?thesis
    by blast
qed

section \<open>The input hook: results\<close>

lemma didEdit_foldl:
  "didEdit (foldl handleEvent s evs) = (if evs = [] then didEdit s else last evs = Blur)"
proof (induction evs arbitrary: s)
  case Nil
  show ?case by simp
next
  case (Cons e evs)
  show ?case
  proof (cases e)
    case (Input v)
    then show ?thesis using Cons [of "handleUserInput v s"]
      by (simp add: handleUserInput_def)
  next
    case Blur
    then show ?thesis using Cons [of "handleInputBlur s"]
      by (simp add: handleInputBlur_def)
  qed
qed

lemma didEdit_afterEvents:
  "didEdit (afterEvents d evs) \<longleftrightarrow> evs \<noteq> [] \<and> last evs = Blur"
  by (simp add: afterEvents_def didEdit_foldl initialInputState_def)

lemma last_Blur_iff:
  "evs \<noteq> [] \<and> last evs = Blur \<longleftrightarrow>
     (\<exists>before later. evs = before @ Blur # later \<and> (\<forall>e \<in> set later. \<not> isInput e))"
proof
  assume "evs \<noteq> [] \<and> last evs = Blur"
  then have "evs = butlast evs @ Blur # []"
    by (metis append_butlast_last_id)
  then show "\<exists>before later. evs = before @ Blur # later \<and> (\<forall>e \<in> set later. \<not> isInput e)"
    by (metis empty_iff list.set(1))
next
  assume "\<exists>before later. evs = before @ Blur # later \<and> (\<forall>e \<in> set later. \<not> isInput e)"
  then obtain before later where ev: "evs = before @ Blur # later"
    and no: "\<forall>e \<in> set later. \<not> isInput e" by blast
  have "last (Blur # later) = Blur"
  proof (cases "later = []")
    case True
    then show ?thesis by simp
  next
    case False
    then have "last later \<in> set later" by simp
    with no have "\<not> isInput (last later)" by blast
    then have "last later = Blur" by (cases "last later") simp_all
    with False show ?thesis by simp
  qed
  with ev show "evs \<noteq> [] \<and> last evs = Blur" by simp
qed

lemma last_retype: "evs \<noteq> [] \<Longrightarrow> (last (map (retype g) evs) = Blur) = (last evs = Blur)"
proof -
  assume "evs \<noteq> []"
  then have "last (map (retype g) evs) = retype g (last evs)" by (simp add: last_map)
  then show ?thesis by (cases "last evs") simp_all
qed

text \<open>
  C9: after any sequence of input and blur events, \<open>hasError\<close> is true exactly when
  some blur is followed by no input event and \<open>validationFn\<close> rejects the default
  value. The typed values play no part: replacing every typed value by any other leaves
  \<open>hasError\<close> as it is, and right after a keystroke \<open>hasError\<close> is false.
\<close>

theorem C9_hasError:
  "(hasError (useInput defaultInputValue validationFn (afterEvents defaultInputValue evs)) \<longleftrightarrow>
      (\<exists>before later. evs = before @ Blur # later \<and> (\<forall>e \<in> set later. \<not> isInput e)) \<and>
      \<not> validationFn defaultInputValue) \<and>
   hasError (useInput defaultInputValue validationFn
      (afterEvents defaultInputValue (map (retype g) evs))) =
     hasError (useInput defaultInputValue validationFn (afterEvents defaultInputValue evs)) \<and>
   \<not> hasError (useInput defaultInputValue validationFn
        (afterEvents defaultInputValue (evs @ [Input v])))"
proof -
  have a: "hasError (useInput defaultInputValue validationFn (afterEvents defaultInputValue evs)) \<longleftrightarrow>
      (\<exists>before later. evs = before @ Blur # later \<and> (\<forall>e \<in> set later. \<not> isInput e)) \<and>
      \<not> validationFn defaultInputValue"
    using last_Blur_iff [of evs]
    by (simp add: useInput_def didEdit_afterEvents)
  have b: "hasError (useInput defaultInputValue validationFn
      (afterEvents defaultInputValue (map (retype g) evs))) =
     hasError (useInput defaultInputValue validationFn (afterEvents defaultInputValue evs))"
    using last_retype [of evs g]
    by (cases "evs = []") (simp_all add: useInput_def didEdit_afterEvents)
  have c: "\<not> hasError (useInput defaultInputValue validationFn
        (afterEvents defaultInputValue (evs @ [Input v])))"
    by (simp add: useInput_def didEdit_afterEvents)
  from a b c show ?thesis by blast
qed

text \<open>
  With an empty default and a validation that asks for a non-empty value, typing Ann and
  leaving the field shows the error although Ann is valid; with the default Bob, clearing
  the field and leaving it shows none.
\<close>

theorem C9_hasError_witness:
  "hasError (useInput [] (\<lambda>x. x \<noteq> []) (afterEvents [] [Input (lit ''Ann''), Blur]))
   \<and> \<not> hasError (useInput (lit ''Bob'') (\<lambda>x. x \<noteq> []) (afterEvents (lit ''Bob'') [Input [], Blur]))"
proof -
  have s: "[Input (lit ''Ann''), Blur] = [Input (lit ''Ann'')] @ Blur # []" by simp
  have n: "\<forall>e \<in> set []. \<not> isInput e" by simp
  have "hasError (useInput [] (\<lambda>x. x \<noteq> []) (afterEvents [] [Input (lit ''Ann''), Blur]))"
    using C9_hasError [of "[]" "\<lambda>x. x \<noteq> []" "[Input (lit ''Ann''), Blur]" id "[]"] s n
    by blast
  moreover have "\<not> hasError (useInput (lit ''Bob'') (\<lambda>x. x \<noteq> []) (afterEvents (lit ''Bob'') [Input [], Blur]))"
    using C9_hasError [of "lit ''Bob''" "\<lambda>x. x \<noteq> []" "[Input [], Blur]" id "[]"]
    by (simp add: lit_def)
  ultimately show ?thesis by blast
qed

section \<open>Numbers: results\<close>

lemma spacing_small: "m < 2 ^ 53 \<Longrightarrow> spacing m = 1"
  by (simp add: spacing.simps)

lemma spacing_next: "2 ^ 53 \<le> m \<Longrightarrow> m < 2 ^ 54 \<Longrightarrow> spacing m = 2"
  by (subst spacing.simps) (simp add: spacing_small)

lemma roundToDouble_exact:
  assumes "\<bar>n\<bar> \<le> 2 ^ 53"
  shows "roundToDouble n = n"
proof (cases "\<bar>n\<bar> < 2 ^ 53")
  case True
  then have "spacing \<bar>n\<bar> = 1" by (rule spacing_small)
  then have "roundToDouble n = sgn n * \<bar>n\<bar>" by (simp add: roundToDouble_def Let_def)
  then show ?thesis by (simp add: mult_sgn_abs)
next
  case False
  with assms have a: "\<bar>n\<bar> = 2 ^ 53" by simp
  then have "spacing \<bar>n\<bar> = 2" by (simp add: spacing_next)
  with a have "roundToDouble n = sgn n * \<bar>n\<bar>" by (simp add: roundToDouble_def Let_def)
  then show ?thesis by (simp add: mult_sgn_abs)
qed

lemma jsAdd_one: "- (2 ^ 53) \<le> V \<Longrightarrow> V < 2 ^ 53 \<Longrightarrow> jsAdd V 1 = V + 1"
  unfolding jsAdd_def by (rule roundToDouble_exact) simp

lemma jsSub_one: "- (2 ^ 53) < V \<Longrightarrow> V \<le> 2 ^ 53 \<Longrightarrow> jsSub V 1 = V - 1"
  unfolding jsSub_def by (rule roundToDouble_exact) simp

section \<open>The opinion store: results\<close>

lemma upvoteOpinion_Some:
  "upvoteOpinion i (Some ops) =
     Inr (Some (map (\<lambda>opinion. if opinion_id opinion = i
                     then opinion\<lparr>opinion_votes := jsAdd (opinion_votes opinion) 1\<rparr>
                     else opinion) ops))"
  by (simp add: upvoteOpinion_def)

lemma downvoteOpinion_Some:
  "downvoteOpinion i (Some ops) =
     Inr (Some (map (\<lambda>opinion. if opinion_id opinion = i
                     then opinion\<lparr>opinion_votes := jsSub (opinion_votes opinion) 1\<rparr>
                     else opinion) ops))"
  by (simp add: downvoteOpinion_def)

text \<open>
  C6, as stated, has \<open>upvoteOpinion\<close> increase the count of every matching opinion by
  exactly 1. The source adds 1 to a JavaScript number: the count \<open>2 ^ 53\<close> is a double,
  \<open>2 ^ 53 + 1\<close> is not, and the sum rounds back to \<open>2 ^ 53\<close>, so the store comes
  back unchanged.
\<close>

theorem C6_upvoteOpinion_rounding_counterexample:
  "isDouble (2 ^ 53) \<and>
   upvoteOpinion (1::nat)
     (Some [\<lparr>opinion_id = 1, opinion_userName = lit ''Ann'', opinion_title = lit ''A'',
            opinion_body = lit ''x'', opinion_votes = 2 ^ 53\<rparr>])
   = Inr (Some [\<lparr>opinion_id = 1, opinion_userName = lit ''Ann'', opinion_title = lit ''A'',
            opinion_body = lit ''x'', opinion_votes = 2 ^ 53\<rparr>]) \<and>
   upvoteOpinion (1::nat)
     (Some [\<lparr>opinion_id = 1, opinion_userName = lit ''Ann'', opinion_title = lit ''A'',
            opinion_body = lit ''x'', opinion_votes = 2 ^ 53\<rparr>])
   \<noteq> Inr (Some [\<lparr>opinion_id = 1, opinion_userName = lit ''Ann'', opinion_title = lit ''A'',
            opinion_body = lit ''x'', opinion_votes = 2 ^ 53 + 1\<rparr>])"
  by (simp add: isDouble_def roundToDouble_exact upvoteOpinion_def jsAdd_def roundToDouble_def
      spacing_next)

text \<open>
  C6 (amended): on every list of opinions and for every id, \<open>upvoteOpinion\<close> returns a
  list of the same length in which each position holds the opinion of that position:
  unchanged when its id is not the given one; otherwise with every other field as before
  and \<open>votes\<close> replaced by the double nearest to \<open>votes + 1\<close>, which is exactly
  \<open>votes + 1\<close> whenever \<open>- 2 ^ 53 \<le> votes < 2 ^ 53\<close>.
\<close>

theorem C6_upvoteOpinion_frame:
  "\<exists>ops'. upvoteOpinion i (Some ops) = Inr (Some ops') \<and> length ops' = length ops \<and>
     (\<forall>k < length ops.
        opinion_id (ops' ! k) = opinion_id (ops ! k) \<and>
        opinion_userName (ops' ! k) = opinion_userName (ops ! k) \<and>
        opinion_title (ops' ! k) = opinion_title (ops ! k) \<and>
        opinion_body (ops' ! k) = opinion_body (ops ! k) \<and>
        (opinion_id (ops ! k) = i \<longrightarrow>
           ops' ! k = (ops ! k)\<lparr>opinion_votes := jsAdd (opinion_votes (ops ! k)) 1\<rparr> \<and>
           (- (2 ^ 53) \<le> opinion_votes (ops ! k) \<and> opinion_votes (ops ! k) < 2 ^ 53 \<longrightarrow>
              opinion_votes (ops' ! k) = opinion_votes (ops ! k) + 1 \<and>
              ops' ! k = (ops ! k)\<lparr>opinion_votes := opinion_votes (ops ! k) + 1\<rparr>)) \<and>
        (opinion_id (ops ! k) \<noteq> i \<longrightarrow> ops' ! k = ops ! k))"
  by (simp add: upvoteOpinion_Some jsAdd_one)

text \<open>
  Upvoting id 2 in a store of two opinions raises the second count from 5 to 6 and leaves
  the first opinion as it was.
\<close>

theorem C6_upvoteOpinion_frame_witness:
  "upvoteOpinion (2::nat)
     (Some [\<lparr>opinion_id = 1, opinion_userName = lit ''Ann'', opinion_title = lit ''A'',
            opinion_body = lit ''x'', opinion_votes = 0\<rparr>,
           \<lparr>opinion_id = 2, opinion_userName = lit ''Bob'', opinion_title = lit ''B'',
            opinion_body = lit ''y'', opinion_votes = 5\<rparr>])
   = Inr (Some [\<lparr>opinion_id = 1, opinion_userName = lit ''Ann'', opinion_title = lit ''A'',
            opinion_body = lit ''x'', opinion_votes = 0\<rparr>,
           \<lparr>opinion_id = 2, opinion_userName = lit ''Bob'', opinion_title = lit ''B'',
            opinion_body = lit ''y'', opinion_votes = 6\<rparr>])"
proof -
  let ?a = "\<lparr>opinion_id = 1::nat, opinion_userName = lit ''Ann'', opinion_title = lit ''A'',
            opinion_body = lit ''x'', opinion_votes = 0\<rparr>"
  let ?b = "\<lparr>opinion_id = 2::nat, opinion_userName = lit ''Bob'', opinion_title = lit ''B'',
            opinion_body = lit ''y'', opinion_votes = 5\<rparr>"
  from C6_upvoteOpinion_frame [of 2 "[?a, ?b]"]
  obtain ops' where r: "upvoteOpinion 2 (Some [?a, ?b]) = Inr (Some ops')"
    and l: "length ops' = length [?a, ?b]"
    and f: "\<forall>k < length [?a, ?b].
        (opinion_id ([?a, ?b] ! k) = 2 \<longrightarrow>
           (- (2 ^ 53) \<le> opinion_votes ([?a, ?b] ! k) \<and> opinion_votes ([?a, ?b] ! k) < 2 ^ 53 \<longrightarrow>
           ops' ! k = ([?a, ?b] ! k)\<lparr>opinion_votes := opinion_votes ([?a, ?b] ! k) + 1\<rparr>)) \<and>
        (opinion_id ([?a, ?b] ! k) \<noteq> 2 \<longrightarrow> ops' ! k = [?a, ?b] ! k)"
    by blast
  from f have "ops' ! 0 = ?a" by simp
  moreover from f have "ops' ! 1 = ?b\<lparr>opinion_votes := 6\<rparr>" by simp
  moreover from l have "length ops' = 2" by simp
  ultimately have "ops' = [?a, ?b\<lparr>opinion_votes := 6\<rparr>]"
    by (simp add: list_eq_iff_nth_eq less_Suc_eq numeral_2_eq_2)
  with r show ?thesis by simp
qed

section \<open>The optimistic vote controller: results\<close>

subsection \<open>The reducer\<close>

text \<open>
  C8, as stated, has the action \<open>"down"\<close> yield exactly \<open>V - 1\<close> for every integer
  count. The source subtracts 1 from a JavaScript number: the count \<open>- 2 ^ 53\<close> is a
  double, \<open>- 2 ^ 53 - 1\<close> is not, and the difference rounds back to \<open>- 2 ^ 53\<close>.
\<close>

theorem C8_rounding_counterexample:
  "isDouble (- (2 ^ 53)) \<and>
   votesReducer (- (2 ^ 53)) (lit ''down'') = - (2 ^ 53) \<and>
   votesReducer (- (2 ^ 53)) (lit ''down'') \<noteq> - (2 ^ 53) - 1"
  by (simp add: isDouble_def roundToDouble_exact votesReducer_def lit_def jsSub_def
      roundToDouble_def spacing_next)

text \<open>
  C8 (amended): the reducer does not clamp at zero. For every integer count \<open>V\<close> with
  \<open>- 2 ^ 53 < V \<le> 2 ^ 53\<close>, zero and the negative ones among them, the action
  \<open>"down"\<close> yields exactly \<open>V - 1\<close>; from 0 it yields -1 and from -3 it yields -4, so
  counts may become negative.
\<close>

theorem C8_no_clamping:
  "(- (2 ^ 53) < V \<and> V \<le> 2 ^ 53 \<longrightarrow> votesReducer V (lit ''down'') = V - 1) \<and>
   votesReducer 0 (lit ''down'') = - 1 \<and>
   votesReducer (- 3) (lit ''down'') = - 4"
  by (simp add: votesReducer_def lit_def jsSub_one)

text \<open>From -3 the action \<open>"down"\<close> gives -4.\<close>

theorem C8_no_clamping_witness:
  "- (2 ^ 53) < (- 3 :: int) \<and> (- 3 :: int) \<le> 2 ^ 53 \<and>
   votesReducer (- 3) (lit ''down'') = - 3 - 1"
proof -
  have b: "- (2 ^ 53) < (- 3 :: int) \<and> (- 3 :: int) \<le> 2 ^ 53" by simp
  with C8_no_clamping [of "- 3"] have "votesReducer (- 3) (lit ''down'') = - 3 - 1"
    by blast
  with b show ?thesis by blast
qed

subsection \<open>Steps of the controller\<close>

lemma votes_cong:
  "opinions s' = opinions s \<Longrightarrow> itemId s' = itemId s \<Longrightarrow> votes s' = votes s"
  by (simp add: votes_def cong: option.case_cong)

lemma click_idle:
  assumes "idle s"
  shows "click btn s =
     (setPending btn True s)\<lparr>optimisticUpdates := [modeOf btn],
        awaiting := Some (btn, (case btn of UpvoteButton \<Rightarrow> UpvoteOpinion (itemId s)
                                 | DownvoteButton \<Rightarrow> DownvoteOpinion (itemId s)), [])\<rparr>"
  using assms
  by (cases btn) (simp_all add: click_def idle_def disabled_def upvoteAction_def downvoteAction_def)

lemma click_idle_fields:
  assumes "idle s"
  shows "opinions (click btn s) = opinions s"
    and "itemId (click btn s) = itemId s"
    and "optimisticUpdates (click btn s) = [modeOf btn]"
    and "awaiting (click btn s) = Some (btn, (case btn of UpvoteButton \<Rightarrow> UpvoteOpinion (itemId s)
                                 | DownvoteButton \<Rightarrow> DownvoteOpinion (itemId s)), [])"
    and "upvotePending (click btn s) = (btn = UpvoteButton)"
    and "downvotePending (click btn s) = (btn = DownvoteButton)"
  using assms by (cases btn; simp add: click_idle; simp add: idle_def)+

lemma click_idle_committing: "idle s \<Longrightarrow> committing (click btn s)"
  by (simp add: committing_def click_idle_fields)

lemma click_disabled: "disabled s \<Longrightarrow> click btn s = s"
  by (simp add: click_def)

lemma committing_disabled: "committing s \<Longrightarrow> disabled s"
  by (cases "awaiting s") (auto simp add: committing_def disabled_def split: prod.splits vote_button.splits intro: vote_button.exhaust)

lemma click_opinions: "opinions (click btn s) = opinions s"
proof (cases "disabled s")
  case True
  then show ?thesis by (simp add: click_def)
next
  case False
  then show ?thesis
    by (cases btn) (simp_all add: click_def upvoteAction_def downvoteAction_def)
qed

lemma finishAction_fields:
  "opinions (finishAction btn s) = opinions s"
  "itemId (finishAction btn s) = itemId s"
  "optimisticUpdates (finishAction btn s) = []"
  "awaiting (finishAction btn s) = None"
  "upvotePending (finishAction btn s) = (btn \<noteq> UpvoteButton \<and> upvotePending s)"
  "downvotePending (finishAction btn s) = (btn \<noteq> DownvoteButton \<and> downvotePending s)"
  by (cases btn; simp add: finishAction_def)+

lemma finishAction_committing_idle:
  assumes "committing s" and "awaiting s = Some (btn, c, rest)"
  shows "idle (finishAction btn s)"
  using assms by (auto simp add: committing_def idle_def finishAction_fields)

lemma settle_Failure_opinions: "opinions (settle Failure s) = opinions s"
  by (cases "awaiting s") (auto simp add: settle_def finishAction_fields)

lemma settle_idle: "idle s \<Longrightarrow> settle out s = s"
  by (simp add: settle_def idle_def)

lemma settle_committing_idle:
  assumes "committing s"
  shows "idle (settle out s)"
proof -
  from assms obtain btn c where a: "awaiting s = Some (btn, c, [])"
    by (cases "awaiting s") (auto simp add: committing_def)
  have f: "idle (finishAction btn s)"
    using assms a by (rule finishAction_committing_idle)
  show ?thesis
  proof (cases out)
    case Failure
    with a f show ?thesis by (simp add: settle_def)
  next
    case Success
    show ?thesis
    proof (cases "applyCommit c (opinions s)")
      case (Inl e)
      with Success a f show ?thesis by (simp add: settle_def)
    next
      case (Inr store')
      have "committing (s\<lparr>opinions := store'\<rparr>)"
        using assms by (simp add: committing_def split: option.splits prod.splits)
      moreover have "awaiting (s\<lparr>opinions := store'\<rparr>) = Some (btn, c, [])"
        using a by simp
      ultimately have "idle (finishAction btn (s\<lparr>opinions := store'\<rparr>))"
        by (rule finishAction_committing_idle)
      moreover have "finishAction btn (s\<lparr>opinions := store', awaiting := None\<rparr>)
          = finishAction btn (s\<lparr>opinions := store'\<rparr>)"
        by (cases btn) (simp_all add: finishAction_def)
      ultimately show ?thesis using Success a Inr by (simp add: settle_def)
    qed
  qed
qed

lemma step_invariant:
  assumes "idle s \<or> committing s"
  shows "idle (step s ev) \<or> committing (step s ev)"
proof (cases ev)
  case (Click btn)
  from assms show ?thesis
  proof
    assume "idle s"
    then show ?thesis using Click by (simp add: click_idle_committing)
  next
    assume "committing s"
    then show ?thesis using Click by (simp add: click_disabled committing_disabled)
  qed
next
  case (Settle out)
  from assms show ?thesis
  proof
    assume "idle s"
    then show ?thesis using Settle by (simp add: settle_idle)
  next
    assume "committing s"
    then show ?thesis using Settle by (simp add: settle_committing_idle)
  qed
qed

lemma afterVoteEvents_invariant:
  assumes "idle s \<or> committing s"
  shows "idle (afterVoteEvents s evs) \<or> committing (afterVoteEvents s evs)"
  using assms unfolding afterVoteEvents_def
proof (induction evs arbitrary: s)
  case Nil
  then show ?case by simp
next
  case (Cons ev evs)
  from Cons.prems have "idle (step s ev) \<or> committing (step s ev)"
    by (rule step_invariant)
  then show ?case using Cons.IH by simp
qed

lemma idle_initialView: "idle (initialView store i)"
  by (simp add: idle_def initialView_def)

lemma idle_optimisticVotes: "idle s \<Longrightarrow> optimisticVotes s = votes s"
  by (cases "votes s") (simp_all add: optimisticVotes_def idle_def)


lemma committing_not_idle: "committing s \<Longrightarrow> awaiting s \<noteq> None"
  by (cases "awaiting s") (simp_all add: committing_def)

lemma find_map_votes:
  assumes "\<And>x. opinion_id (f x) = opinion_id x"
  shows "find (\<lambda>opinion. opinion_id opinion = i) (map f ops)
       = map_option f (find (\<lambda>opinion. opinion_id opinion = i) ops)"
  using assms by (induction ops) simp_all

lemma votes_after_upvote:
  assumes "votes s = Some V" and "upvoteOpinion (itemId s) (opinions s) = Inr store'"
  shows "votes (s\<lparr>opinions := store'\<rparr>) = Some (jsAdd V 1)"
proof -
  from assms(1) obtain ops where o: "opinions s = Some ops"
    by (cases "opinions s") (simp_all add: votes_def)
  let ?f = "\<lambda>opinion. if opinion_id opinion = itemId s
                     then opinion\<lparr>opinion_votes := jsAdd (opinion_votes opinion) 1\<rparr>
                     else opinion"
  from assms(2) o have st: "store' = Some (map ?f ops)"
    by (simp add: upvoteOpinion_def)
  from assms(1) o obtain x where x: "find (\<lambda>opinion. opinion_id opinion = itemId s) ops = Some x"
    and v: "opinion_votes x = V"
    by (auto simp add: votes_def)
  from x have "opinion_id x = itemId s"
    by (auto simp add: find_Some_iff)
  moreover have "find (\<lambda>opinion. opinion_id opinion = itemId s) (map ?f ops)
       = map_option ?f (find (\<lambda>opinion. opinion_id opinion = itemId s) ops)"
    by (rule find_map_votes) simp
  ultimately show ?thesis using st x v by (simp add: votes_def)
qed

lemma votes_after_downvote:
  assumes "votes s = Some V" and "downvoteOpinion (itemId s) (opinions s) = Inr store'"
  shows "votes (s\<lparr>opinions := store'\<rparr>) = Some (jsSub V 1)"
proof -
  from assms(1) obtain ops where o: "opinions s = Some ops"
    by (cases "opinions s") (simp_all add: votes_def)
  let ?f = "\<lambda>opinion. if opinion_id opinion = itemId s
                     then opinion\<lparr>opinion_votes := jsSub (opinion_votes opinion) 1\<rparr>
                     else opinion"
  from assms(2) o have st: "store' = Some (map ?f ops)"
    by (simp add: downvoteOpinion_def)
  from assms(1) o obtain x where x: "find (\<lambda>opinion. opinion_id opinion = itemId s) ops = Some x"
    and v: "opinion_votes x = V"
    by (auto simp add: votes_def)
  from x have "opinion_id x = itemId s"
    by (auto simp add: find_Some_iff)
  moreover have "find (\<lambda>opinion. opinion_id opinion = itemId s) (map ?f ops)
       = map_option ?f (find (\<lambda>opinion. opinion_id opinion = itemId s) ops)"
    by (rule find_map_votes) simp
  ultimately show ?thesis using st x v by (simp add: votes_def)
qed

lemma click_idle_optimisticVotes:
  assumes "idle s" and "votes s = Some V"
  shows "optimisticVotes (click btn s) = Some (votesReducer V (modeOf btn))"
proof -
  have "votes (click btn s) = votes s"
    by (rule votes_cong) (simp_all add: click_idle_fields assms(1))
  then show ?thesis using assms
    by (simp add: optimisticVotes_def click_idle_fields)
qed

lemma modeOf_reducer:
  "votesReducer V (modeOf UpvoteButton) = jsAdd V 1"
  "votesReducer V (modeOf DownvoteButton) = jsSub V 1"
  by (simp_all add: votesReducer_def lit_def)

lemma settle_Failure_click_idle:
  assumes "idle s"
  shows "idle (settle Failure (click btn s))"
    and "opinions (settle Failure (click btn s)) = opinions s"
    and "votes (settle Failure (click btn s)) = votes s"
proof -
  show "idle (settle Failure (click btn s))"
    using assms by (simp add: settle_committing_idle click_idle_committing)
  show o: "opinions (settle Failure (click btn s)) = opinions s"
    by (simp add: settle_Failure_opinions click_opinions)
  have "itemId (settle Failure (click btn s)) = itemId s"
    using assms by (simp add: settle_def click_idle_fields finishAction_fields)
  with o show "votes (settle Failure (click btn s)) = votes s"
    by (rule votes_cong)
qed

lemma settle_Success_upvote:
  assumes "idle s" and "votes s = Some V"
  shows "votes (settle Success (click UpvoteButton s)) = Some (jsAdd V 1)"
proof -
  let ?s1 = "click UpvoteButton s"
  have "votes ?s1 = votes s"
    by (rule votes_cong) (simp_all add: click_idle_fields assms(1))
  with assms(2) have v1: "votes ?s1 = Some V" by simp
  have i1: "itemId ?s1 = itemId s"
    using assms(1) by (simp add: click_idle_fields)
  from assms(2) obtain ops where "opinions s = Some ops"
    by (cases "opinions s") (simp_all add: votes_def)
  then have o1: "opinions ?s1 = Some ops" by (simp add: click_opinions)
  have a: "awaiting ?s1 = Some (UpvoteButton, UpvoteOpinion (itemId s), [])"
    using assms(1) by (simp add: click_idle_fields)
  obtain store' where u: "upvoteOpinion (itemId ?s1) (opinions ?s1) = Inr store'"
    using o1 by (simp add: upvoteOpinion_def)
  have "settle Success ?s1 = finishAction UpvoteButton (?s1\<lparr>opinions := store', awaiting := None\<rparr>)"
    using a u i1 by (simp add: settle_def)
  then have "votes (settle Success ?s1)
      = votes (finishAction UpvoteButton (?s1\<lparr>opinions := store', awaiting := None\<rparr>))"
    by (rule arg_cong)
  also have "\<dots> = votes (?s1\<lparr>opinions := store'\<rparr>)"
    by (rule votes_cong) (simp_all add: finishAction_fields)
  also from v1 u have "\<dots> = Some (jsAdd V 1)"
    by (rule votes_after_upvote)
  finally show ?thesis .
qed

lemma settle_Success_downvote:
  assumes "idle s" and "votes s = Some V"
  shows "votes (settle Success (click DownvoteButton s)) = Some (jsSub V 1)"
proof -
  let ?s1 = "click DownvoteButton s"
  have "votes ?s1 = votes s"
    by (rule votes_cong) (simp_all add: click_idle_fields assms(1))
  with assms(2) have v1: "votes ?s1 = Some V" by simp
  have i1: "itemId ?s1 = itemId s"
    using assms(1) by (simp add: click_idle_fields)
  from assms(2) obtain ops where "opinions s = Some ops"
    by (cases "opinions s") (simp_all add: votes_def)
  then have o1: "opinions ?s1 = Some ops" by (simp add: click_opinions)
  have a: "awaiting ?s1 = Some (DownvoteButton, DownvoteOpinion (itemId s), [])"
    using assms(1) by (simp add: click_idle_fields)
  obtain store' where u: "downvoteOpinion (itemId ?s1) (opinions ?s1) = Inr store'"
    using o1 by (simp add: downvoteOpinion_def)
  have "settle Success ?s1 = finishAction DownvoteButton (?s1\<lparr>opinions := store', awaiting := None\<rparr>)"
    using a u i1 by (simp add: settle_def)
  then have "votes (settle Success ?s1)
      = votes (finishAction DownvoteButton (?s1\<lparr>opinions := store', awaiting := None\<rparr>))"
    by (rule arg_cong)
  also have "\<dots> = votes (?s1\<lparr>opinions := store'\<rparr>)"
    by (rule votes_cong) (simp_all add: finishAction_fields)
  also from v1 u have "\<dots> = Some (jsSub V 1)"
    by (rule votes_after_downvote)
  finally show ?thesis .
qed

lemma settle_Success_click_idle:
  assumes "idle s" and "votes s = Some V"
  shows "votes (settle Success (click btn s)) = Some (votesReducer V (modeOf btn))"
proof (cases btn)
  case UpvoteButton
  have "votesReducer V (modeOf UpvoteButton) = jsAdd V 1" by (rule modeOf_reducer)
  with settle_Success_upvote [OF assms] UpvoteButton show ?thesis by simp
next
  case DownvoteButton
  have "votesReducer V (modeOf DownvoteButton) = jsSub V 1" by (rule modeOf_reducer)
  with settle_Success_downvote [OF assms] DownvoteButton show ?thesis by simp
qed

lemma reachable_cases:
  "idle (afterVoteEvents (initialView store i) evs) \<or>
   committing (afterVoteEvents (initialView store i) evs)"
  by (rule afterVoteEvents_invariant) (simp add: idle_initialView)

lemma idle_iff_not_awaiting:
  assumes "idle s \<or> committing s"
  shows "idle s \<longleftrightarrow> awaiting s = None"
  using assms committing_not_idle [of s] by (auto simp add: idle_def)

subsection \<open>C2: the optimistic delta\<close>

text \<open>
  C2, as stated, has the reducer map \<open>"up"\<close> to \<open>V + 1\<close> for any count. The source
  adds 1 to a JavaScript number: the count \<open>2 ^ 53\<close> is a double, \<open>2 ^ 53 + 1\<close> is
  not, and the sum rounds back to \<open>2 ^ 53\<close>.
\<close>

theorem C2_rounding_counterexample:
  "isDouble (2 ^ 53) \<and>
   votesReducer (2 ^ 53) (lit ''up'') = 2 ^ 53 \<and>
   votesReducer (2 ^ 53) (lit ''up'') \<noteq> 2 ^ 53 + 1"
  by (simp add: isDouble_def roundToDouble_exact votesReducer_def jsAdd_def
      roundToDouble_def spacing_next)

text \<open>
  C2 (amended): the reducer maps \<open>"up"\<close> to \<open>V + 1\<close> for every count with
  \<open>- 2 ^ 53 \<le> V < 2 ^ 53\<close> and \<open>"down"\<close> to \<open>V - 1\<close> for every count with
  \<open>- 2 ^ 53 < V \<le> 2 ^ 53\<close>. When no action is running and the store holds the count
  \<open>V\<close>, a click on a vote button changes the displayed count to the reducer's value,
  \<open>V + 1\<close> (or \<open>V - 1\<close>) in these ranges, at once: the action is then suspended at
  its \<open>await\<close>, the commit has not settled and the store is as before.
\<close>

theorem C2_optimistic_delta:
  "(- (2 ^ 53) \<le> V \<and> V < 2 ^ 53 \<longrightarrow>
      votesReducer V (lit ''up'') = V + 1 \<and>
      (idle s \<and> votes s = Some V \<longrightarrow>
         optimisticVotes (click UpvoteButton s) = Some (V + 1))) \<and>
   (- (2 ^ 53) < V \<and> V \<le> 2 ^ 53 \<longrightarrow>
      votesReducer V (lit ''down'') = V - 1 \<and>
      (idle s \<and> votes s = Some V \<longrightarrow>
         optimisticVotes (click DownvoteButton s) = Some (V - 1))) \<and>
   (idle s \<and> votes s = Some V \<longrightarrow>
      optimisticVotes (click UpvoteButton s) = Some (votesReducer V (lit ''up'')) \<and>
      awaiting (click UpvoteButton s) = Some (UpvoteButton, UpvoteOpinion (itemId s), []) \<and>
      opinions (click UpvoteButton s) = opinions s \<and>
      optimisticVotes (click DownvoteButton s) = Some (votesReducer V (lit ''down'')) \<and>
      awaiting (click DownvoteButton s) = Some (DownvoteButton, DownvoteOpinion (itemId s), []) \<and>
      opinions (click DownvoteButton s) = opinions s)"
proof -
  have u: "- (2 ^ 53) \<le> V \<and> V < 2 ^ 53 \<longrightarrow> votesReducer V (lit ''up'') = V + 1"
    by (simp add: votesReducer_def jsAdd_one)
  have d: "- (2 ^ 53) < V \<and> V \<le> 2 ^ 53 \<longrightarrow> votesReducer V (lit ''down'') = V - 1"
    by (simp add: votesReducer_def lit_def jsSub_one)
  have c: "idle s \<and> votes s = Some V \<longrightarrow>
      optimisticVotes (click UpvoteButton s) = Some (votesReducer V (lit ''up'')) \<and>
      awaiting (click UpvoteButton s) = Some (UpvoteButton, UpvoteOpinion (itemId s), []) \<and>
      opinions (click UpvoteButton s) = opinions s \<and>
      optimisticVotes (click DownvoteButton s) = Some (votesReducer V (lit ''down'')) \<and>
      awaiting (click DownvoteButton s) = Some (DownvoteButton, DownvoteOpinion (itemId s), []) \<and>
      opinions (click DownvoteButton s) = opinions s"
    using click_idle_optimisticVotes [of s V UpvoteButton]
      click_idle_optimisticVotes [of s V DownvoteButton]
    by (simp add: click_idle_fields click_opinions)
  from u d c show ?thesis by simp
qed

text \<open>
  An opinion with 5 votes shows 6 right after the upvote click, while the call
  \<open>upvoteOpinion(7)\<close> is awaited, and 4 right after a downvote click.
\<close>

theorem C2_optimistic_delta_witness:
  "idle (initialView (Some [\<lparr>opinion_id = 7::nat, opinion_userName = lit ''Ann'',
       opinion_title = lit ''A'', opinion_body = lit ''x'', opinion_votes = 5\<rparr>]) 7)
   \<and> votes (initialView (Some [\<lparr>opinion_id = 7::nat, opinion_userName = lit ''Ann'',
       opinion_title = lit ''A'', opinion_body = lit ''x'', opinion_votes = 5\<rparr>]) 7) = Some 5
   \<and> optimisticVotes (click UpvoteButton (initialView (Some [\<lparr>opinion_id = 7::nat,
       opinion_userName = lit ''Ann'', opinion_title = lit ''A'', opinion_body = lit ''x'',
       opinion_votes = 5\<rparr>]) 7)) = Some 6
   \<and> awaiting (click UpvoteButton (initialView (Some [\<lparr>opinion_id = 7::nat,
       opinion_userName = lit ''Ann'', opinion_title = lit ''A'', opinion_body = lit ''x'',
       opinion_votes = 5\<rparr>]) 7)) = Some (UpvoteButton, UpvoteOpinion 7, [])
   \<and> optimisticVotes (click DownvoteButton (initialView (Some [\<lparr>opinion_id = 7::nat,
       opinion_userName = lit ''Ann'', opinion_title = lit ''A'', opinion_body = lit ''x'',
       opinion_votes = 5\<rparr>]) 7)) = Some 4"
proof -
  let ?s = "initialView (Some [\<lparr>opinion_id = 7::nat, opinion_userName = lit ''Ann'',
       opinion_title = lit ''A'', opinion_body = lit ''x'', opinion_votes = 5\<rparr>]) 7"
  have i: "idle ?s" by (simp add: idle_def initialView_def)
  have v: "votes ?s = Some 5" by (simp add: votes_def initialView_def)
  have d: "itemId ?s = 7" by (simp add: initialView_def)
  have b: "- (2 ^ 53) < (5::int) \<and> (5::int) < 2 ^ 53" by simp
  from C2_optimistic_delta [of 5 ?s] i v d b show ?thesis by simp
qed

subsection \<open>C3: rollback on failure\<close>

text \<open>
  C3: a vote that starts while no action is running, with the count \<open>V\<close> in the
  store, shows the optimistic count while its commit is pending; if the commit fails, the
  store is the same before the click, after the click and after the failure, and the
  displayed count is \<open>V\<close> again. A failed commit changes the store in no state.
\<close>

theorem C3_rollback:
  assumes "idle s" and "votes s = Some V"
  shows "optimisticVotes (click btn s) = Some (votesReducer V (modeOf btn)) \<and>
         opinions (click btn s) = opinions s \<and>
         opinions (settle Failure (click btn s)) = opinions s \<and>
         votes (settle Failure (click btn s)) = Some V \<and>
         optimisticVotes (settle Failure (click btn s)) = Some V \<and>
         opinions (settle Failure s') = opinions s'"
  using assms click_idle_optimisticVotes [OF assms, of btn]
    settle_Failure_click_idle [OF assms(1), of btn]
    idle_optimisticVotes [of "settle Failure (click btn s)"]
  by (simp add: click_opinions settle_Failure_opinions)

text \<open>
  With 5 votes in the store, an upvote shows 6, and after the failed commit the display
  is 5 and the store is the one before the click.
\<close>

theorem C3_rollback_witness:
  "idle (initialView (Some [\<lparr>opinion_id = 7::nat, opinion_userName = lit ''Ann'',
       opinion_title = lit ''A'', opinion_body = lit ''x'', opinion_votes = 5\<rparr>]) 7)
   \<and> votes (initialView (Some [\<lparr>opinion_id = 7::nat, opinion_userName = lit ''Ann'',
       opinion_title = lit ''A'', opinion_body = lit ''x'', opinion_votes = 5\<rparr>]) 7) = Some 5
   \<and> optimisticVotes (click UpvoteButton (initialView (Some [\<lparr>opinion_id = 7::nat,
       opinion_userName = lit ''Ann'', opinion_title = lit ''A'', opinion_body = lit ''x'',
       opinion_votes = 5\<rparr>]) 7)) = Some 6
   \<and> optimisticVotes (settle Failure (click UpvoteButton (initialView (Some [\<lparr>opinion_id = 7::nat,
       opinion_userName = lit ''Ann'', opinion_title = lit ''A'', opinion_body = lit ''x'',
       opinion_votes = 5\<rparr>]) 7))) = Some 5
   \<and> opinions (settle Failure (click UpvoteButton (initialView (Some [\<lparr>opinion_id = 7::nat,
       opinion_userName = lit ''Ann'', opinion_title = lit ''A'', opinion_body = lit ''x'',
       opinion_votes = 5\<rparr>]) 7))) = Some [\<lparr>opinion_id = 7::nat,
       opinion_userName = lit ''Ann'', opinion_title = lit ''A'', opinion_body = lit ''x'',
       opinion_votes = 5\<rparr>]"
proof -
  let ?s = "initialView (Some [\<lparr>opinion_id = 7::nat, opinion_userName = lit ''Ann'',
       opinion_title = lit ''A'', opinion_body = lit ''x'', opinion_votes = 5\<rparr>]) 7"
  have i: "idle ?s" by (simp add: idle_def initialView_def)
  have v: "votes ?s = Some 5" by (simp add: votes_def initialView_def)
  have o: "opinions ?s = Some [\<lparr>opinion_id = 7::nat, opinion_userName = lit ''Ann'',
       opinion_title = lit ''A'', opinion_body = lit ''x'', opinion_votes = 5\<rparr>]"
    by (simp add: initialView_def)
  have m: "votesReducer 5 (modeOf UpvoteButton) = 6" by (simp add: votesReducer_def jsAdd_one)
  from C3_rollback [OF i v, of UpvoteButton ?s] i v o m show ?thesis by simp
qed

subsection \<open>C4: no second vote while a commit is pending\<close>



subsection \<open>C7: every vote is reconciled once\<close>

text \<open>
  C7: a vote that starts while no action is running, with the count \<open>V\<close> in the
  store, is reconciled when its commit settles: no action is running afterwards and the
  displayed count equals the count in the store, which is the optimistic count after a
  success and \<open>V\<close>, with the store unchanged, after a failure. A further settlement
  changes nothing, so the vote is reconciled once. In every state the controller reaches
  from its initial state, the displayed count equals the count in the store whenever no
  commit is pending.
\<close>

theorem C7_reconciled_once:
  assumes "idle s" and "votes s = Some V"
  shows "idle (settle out (click btn s)) \<and>
         optimisticVotes (settle out (click btn s)) = votes (settle out (click btn s)) \<and>
         (out = Success \<longrightarrow>
            votes (settle out (click btn s)) = Some (votesReducer V (modeOf btn)) \<and>
            votes (settle out (click btn s)) = optimisticVotes (click btn s)) \<and>
         (out = Failure \<longrightarrow>
            votes (settle out (click btn s)) = Some V \<and>
            opinions (settle out (click btn s)) = opinions s) \<and>
         settle out' (settle out (click btn s)) = settle out (click btn s) \<and>
         (awaiting (afterVoteEvents (initialView store i) evs) = None \<longrightarrow>
            optimisticVotes (afterVoteEvents (initialView store i) evs)
              = votes (afterVoteEvents (initialView store i) evs))"
proof -
  have i: "idle (settle out (click btn s))"
    using assms(1) by (simp add: settle_committing_idle click_idle_committing)
  then have e: "optimisticVotes (settle out (click btn s)) = votes (settle out (click btn s))"
    by (rule idle_optimisticVotes)
  have su: "out = Success \<longrightarrow>
            votes (settle out (click btn s)) = Some (votesReducer V (modeOf btn)) \<and>
            votes (settle out (click btn s)) = optimisticVotes (click btn s)"
    using settle_Success_click_idle [OF assms, of btn] click_idle_optimisticVotes [OF assms, of btn]
    by simp
  have fa: "out = Failure \<longrightarrow>
            votes (settle out (click btn s)) = Some V \<and>
            opinions (settle out (click btn s)) = opinions s"
    using settle_Failure_click_idle [OF assms(1), of btn] assms(2) by simp
  have on: "settle out' (settle out (click btn s)) = settle out (click btn s)"
    using i by (rule settle_idle)
  have r: "awaiting (afterVoteEvents (initialView store i) evs) = None \<longrightarrow>
            optimisticVotes (afterVoteEvents (initialView store i) evs)
              = votes (afterVoteEvents (initialView store i) evs)"
    using reachable_cases [of store i evs]
      idle_iff_not_awaiting [of "afterVoteEvents (initialView store i) evs"]
      idle_optimisticVotes [of "afterVoteEvents (initialView store i) evs"]
    by blast
  from i e su fa on r show ?thesis by blast
qed

text \<open>
  With 5 votes in the store: after a successful upvote the store and the display both
  hold 6; after a failed downvote the display holds 5.
\<close>

theorem C7_reconciled_once_witness:
  "idle (initialView (Some [\<lparr>opinion_id = 7::nat, opinion_userName = lit ''Ann'',
       opinion_title = lit ''A'', opinion_body = lit ''x'', opinion_votes = 5\<rparr>]) 7)
   \<and> votes (initialView (Some [\<lparr>opinion_id = 7::nat, opinion_userName = lit ''Ann'',
       opinion_title = lit ''A'', opinion_body = lit ''x'', opinion_votes = 5\<rparr>]) 7) = Some 5
   \<and> optimisticVotes (settle Success (click UpvoteButton (initialView (Some [\<lparr>opinion_id = 7::nat,
       opinion_userName = lit ''Ann'', opinion_title = lit ''A'', opinion_body = lit ''x'',
       opinion_votes = 5\<rparr>]) 7))) = Some 6
   \<and> votes (settle Success (click UpvoteButton (initialView (Some [\<lparr>opinion_id = 7::nat,
       opinion_userName = lit ''Ann'', opinion_title = lit ''A'', opinion_body = lit ''x'',
       opinion_votes = 5\<rparr>]) 7))) = Some 6
   \<and> optimisticVotes (settle Failure (click DownvoteButton (initialView (Some [\<lparr>opinion_id = 7::nat,
       opinion_userName = lit ''Ann'', opinion_title = lit ''A'', opinion_body = lit ''x'',
       opinion_votes = 5\<rparr>]) 7))) = Some 5
   \<and> awaiting (afterVoteEvents (initialView (Some [\<lparr>opinion_id = 7::nat,
       opinion_userName = lit ''Ann'', opinion_title = lit ''A'', opinion_body = lit ''x'',
       opinion_votes = 5\<rparr>]) 7) [Click UpvoteButton, Settle Success]) = None
   \<and> optimisticVotes (afterVoteEvents (initialView (Some [\<lparr>opinion_id = 7::nat,
       opinion_userName = lit ''Ann'', opinion_title = lit ''A'', opinion_body = lit ''x'',
       opinion_votes = 5\<rparr>]) 7) [Click UpvoteButton, Settle Success])
     = votes (afterVoteEvents (initialView (Some [\<lparr>opinion_id = 7::nat,
       opinion_userName = lit ''Ann'', opinion_title = lit ''A'', opinion_body = lit ''x'',
       opinion_votes = 5\<rparr>]) 7) [Click UpvoteButton, Settle Success])"
proof -
  let ?st = "Some [\<lparr>opinion_id = 7::nat, opinion_userName = lit ''Ann'',
       opinion_title = lit ''A'', opinion_body = lit ''x'', opinion_votes = 5\<rparr>]"
  let ?s = "initialView ?st 7"
  let ?evs = "[Click UpvoteButton, Settle Success]"
  have i: "idle ?s" by (simp add: idle_def initialView_def)
  have v: "votes ?s = Some 5" by (simp add: votes_def initialView_def)
  have m: "votesReducer 5 (modeOf UpvoteButton) = 6" by (simp add: votesReducer_def jsAdd_one)
  have a: "awaiting (afterVoteEvents ?s ?evs) = None"
    by (simp add: afterVoteEvents_def initialView_def click_def disabled_def upvoteAction_def
        settle_def upvoteOpinion_def finishAction_def)
  from C7_reconciled_once [OF i v, of Success UpvoteButton Failure ?st 7 ?evs] m a
  have s: "optimisticVotes (settle Success (click UpvoteButton ?s)) = Some 6
      \<and> votes (settle Success (click UpvoteButton ?s)) = Some 6
      \<and> optimisticVotes (afterVoteEvents ?s ?evs) = votes (afterVoteEvents ?s ?evs)"
    by simp
  from C7_reconciled_once [OF i v, of Failure DownvoteButton Failure ?st 7 "[]"]
  have f: "optimisticVotes (settle Failure (click DownvoteButton ?s)) = Some 5"
    by simp
  from i v s f a show ?thesis by blast
qed

end
